theory Spec2Isabelle
  imports Main
begin

section \<open>The LinkedIn posting agent: storage, nodes and workflow\<close>

text \<open>
  The development follows the Python sources: \<^verbatim>\<open>src/utils/storage.py\<close> (the progress
  store), \<^verbatim>\<open>src/nodes/content_generator.py\<close>, \<^verbatim>\<open>src/nodes/approval_handler.py\<close>,
  \<^verbatim>\<open>src/nodes/linkedin_poster.py\<close> (the three graph nodes) and \<^verbatim>\<open>src/agent.py\<close> (the
  graph and its routing functions).

  Conventions. A Python \<^verbatim>\<open>str\<close> is a \<^typ>\<open>string\<close>, one \<^typ>\<open>char\<close> per code point
  (code points below 256), so that \<^const>\<open>length\<close> is Python's \<^verbatim>\<open>len\<close>. Python's unbounded
  integers are \<^typ>\<open>int\<close>. The two JSON files are records holding the keys that
  \<^verbatim>\<open>_ensure_data_files\<close> and \<^verbatim>\<open>reset_journey\<close> write; a JSON \<^verbatim>\<open>null\<close> is \<^const>\<open>None\<close>.
  Every reading of the clock (\<^verbatim>\<open>datetime.now().isoformat()\<close>) is taken from a function
  \<open>clk\<close> that gives the k-th reading made by the operation at hand.
\<close>

subsection \<open>Settings (config/settings.py)\<close>

definition MAX_POST_LENGTH :: nat where
  "MAX_POST_LENGTH = 3000"

subsection \<open>The persisted data (utils/storage.py)\<close>

record topic_info =
  ti_day :: int
  ti_topic :: string
  ti_category :: string
  ti_difficulty :: string
  ti_key_points :: "string list"
  ti_story_angle :: string

record posted_item =
  pi_day :: int
  pi_topic :: string
  pi_content :: string
  pi_linkedin_post_id :: "string option"
  pi_posted_at :: string
  pi_char_count :: nat

record history_file =
  posted_items :: "posted_item list"
  last_updated :: "string option"
  total_posts :: nat

record pending =
  pa_content :: string
  pa_day :: int
  pa_topic :: string
  pa_approved_at :: string

record state_file =
  current_day :: int
  started_at :: "string option"
  last_post_date :: "string option"
  pending_approval :: "pending option"
  status :: string

record store =
  curriculum :: "topic_info list"
  history :: history_file
  state :: state_file

type_synonym clock = "nat \<Rightarrow> string"

text \<open>What \<^verbatim>\<open>_ensure_data_files\<close> writes when a file does not exist yet.\<close>

definition initial_history :: history_file where
  "initial_history = \<lparr>posted_items = [], last_updated = None, total_posts = 0\<rparr>"

definition initial_state :: state_file where
  "initial_state =
     \<lparr>current_day = 1, started_at = None, last_post_date = None,
      pending_approval = None, status = ''not_started''\<rparr>"

definition fresh_store :: "topic_info list \<Rightarrow> store" where
  "fresh_store cur = \<lparr>curriculum = cur, history = initial_history, state = initial_state\<rparr>"

text \<open>\<^verbatim>\<open>get_topic_for_day\<close>: the first curriculum item with that day, or \<^verbatim>\<open>None\<close>.\<close>

definition get_topic_for_day :: "int \<Rightarrow> store \<Rightarrow> topic_info option" where
  "get_topic_for_day day s = find (\<lambda>item. ti_day item = day) (curriculum s)"

definition add_to_history ::
  "int \<Rightarrow> string \<Rightarrow> string \<Rightarrow> string option \<Rightarrow> clock \<Rightarrow> store \<Rightarrow> store" where
  "add_to_history day topic content linkedin_post_id clk s =
     (let posted_item = \<lparr>pi_day = day, pi_topic = topic, pi_content = content,
                          pi_linkedin_post_id = linkedin_post_id, pi_posted_at = clk 0,
                          pi_char_count = length content\<rparr>;
          items = posted_items (history s) @ [posted_item]
      in s\<lparr>history := (history s)\<lparr>posted_items := items, last_updated := Some (clk 1),
                                    total_posts := length items\<rparr>\<rparr>)"

definition get_posted_days :: "store \<Rightarrow> int list" where
  "get_posted_days s = map pi_day (posted_items (history s))"

definition is_day_posted :: "int \<Rightarrow> store \<Rightarrow> bool" where
  "is_day_posted day s = (day \<in> set (get_posted_days s))"

text \<open>\<^verbatim>\<open>update_state(**kwargs)\<close>: read the state file, overwrite the given keys, write it.\<close>

definition update_state :: "(state_file \<Rightarrow> state_file) \<Rightarrow> store \<Rightarrow> store" where
  "update_state kwargs s = s\<lparr>state := kwargs (state s)\<rparr>"

definition get_current_day :: "store \<Rightarrow> int" where
  "get_current_day s = current_day (state s)"

definition increment_day :: "store \<Rightarrow> store" where
  "increment_day s =
     (let current = get_current_day s
      in if current < 90 then update_state (\<lambda>st. st\<lparr>current_day := current + 1\<rparr>) s else s)"

definition set_pending_approval :: "pending \<Rightarrow> store \<Rightarrow> store" where
  "set_pending_approval content s =
     update_state (\<lambda>st. st\<lparr>pending_approval := Some content, status := ''pending_approval''\<rparr>) s"

definition clear_pending_approval :: "store \<Rightarrow> store" where
  "clear_pending_approval s =
     update_state (\<lambda>st. st\<lparr>pending_approval := None, status := ''active''\<rparr>) s"

definition get_pending_approval :: "store \<Rightarrow> pending option" where
  "get_pending_approval s = pending_approval (state s)"

definition start_journey :: "clock \<Rightarrow> store \<Rightarrow> store" where
  "start_journey clk s =
     update_state (\<lambda>st. st\<lparr>current_day := 1, started_at := Some (clk 0), status := ''active''\<rparr>) s"

text \<open>\<^verbatim>\<open>mark_post_completed(day)\<close> does not use its argument \<open>day\<close>.\<close>

definition mark_post_completed :: "int \<Rightarrow> clock \<Rightarrow> store \<Rightarrow> store" where
  "mark_post_completed day clk s =
     increment_day (update_state (\<lambda>st. st\<lparr>last_post_date := Some (clk 0)\<rparr>) s)"

definition reset_journey :: "store \<Rightarrow> store" where
  "reset_journey s = s\<lparr>state := initial_state, history := initial_history\<rparr>"

text \<open>
  The spec's \<open>recordPublished\<close>: \<^verbatim>\<open>add_to_history\<close> followed by \<^verbatim>\<open>mark_post_completed\<close>,
  as \<^verbatim>\<open>post_content\<close> calls them. The clock readings 0 and 1 go to the first call,
  reading 2 to the second.
\<close>

definition record_published ::
  "int \<Rightarrow> string \<Rightarrow> string \<Rightarrow> string option \<Rightarrow> clock \<Rightarrow> store \<Rightarrow> store" where
  "record_published day topic content external_id clk s =
     mark_post_completed day (\<lambda>k. clk (k + 2))
       (add_to_history day topic content external_id clk s)"

text \<open>The JourneyState invariant of the spec, read on the state file.\<close>

definition journey_invariant :: "store \<Rightarrow> bool" where
  "journey_invariant s =
     ((pending_approval (state s) \<noteq> None) = (status (state s) = ''pending_approval''))"

subsection \<open>The publishing capability and the poster node (nodes/linkedin_poster.py)\<close>

text \<open>
  The dictionary returned by \<^verbatim>\<open>create_text_post\<close>: the keys that \<^verbatim>\<open>post_content\<close> reads.
  An absent key is \<^const>\<open>None\<close>.
\<close>

record api_response =
  api_success :: bool
  api_post_id :: "string option"
  api_error :: "string option"
  api_detail :: "string option"

datatype decision = Approve | Reject | Edit | Skip | Quit | ErrorDecision

datatype posting_result =
    Posted string int string string bool
  | PostFailed "string option" "string option"
  | Skipped int string
  | QuitAction
  | UnknownDecision "decision option"

text \<open>
  \<^verbatim>\<open>post_content\<close>. The answer \<open>result\<close> of the external call
  \<^verbatim>\<open>self.api.create_text_post(content)\<close> is a parameter. On success the post id defaults
  to the empty string; clock readings 0 to 2 go to the store, reading 3 to the result.
\<close>

definition post_content ::
  "api_response \<Rightarrow> bool \<Rightarrow> clock \<Rightarrow> string \<Rightarrow> int \<Rightarrow> string \<Rightarrow> store \<Rightarrow> posting_result \<times> store" where
  "post_content result is_mock clk content day topic s =
     (if api_success result then
        (let post_id = (case api_post_id result of None \<Rightarrow> [] | Some p \<Rightarrow> p);
             s1 = add_to_history day topic content (Some post_id) clk s;
             s2 = mark_post_completed day (\<lambda>k. clk (k + 2)) s1;
             s3 = clear_pending_approval s2
         in (Posted post_id day topic (clk 3) is_mock, s3))
      else (PostFailed (api_error result) (api_detail result), s))"

definition handle_skip :: "int \<Rightarrow> string \<Rightarrow> store \<Rightarrow> posting_result \<times> store" where
  "handle_skip day topic s = (Skipped day topic, increment_day (clear_pending_approval s))"

subsection \<open>Text helpers\<close>

text \<open>
  Python's \<^verbatim>\<open>str.lower\<close>, \<^verbatim>\<open>str.upper\<close> and \<^verbatim>\<open>str.strip\<close> on code points below 256.
  Lower-casing moves \<open>A..Z\<close> and the Latin-1 capitals (192 to 222, without the
  multiplication sign 215) up by 32. Upper-casing moves \<open>a..z\<close> and the Latin-1 small
  letters (224 to 254, without the division sign 247) down by 32 and writes the sharp s
  (223) as \<open>SS\<close>; the two letters whose capital lies beyond code point 255 (181 and 255)
  are left as they are, which no comparison with an ASCII word can notice. White space
  is what \<^verbatim>\<open>str.isspace\<close> accepts: 9 to 13, 28 to 32, 133 and 160.
\<close>

definition lower_char :: "char \<Rightarrow> char" where
  "lower_char c =
     (let n = (of_char c :: nat)
      in if (65 \<le> n \<and> n \<le> 90) \<or> (192 \<le> n \<and> n \<le> 222 \<and> n \<noteq> 215)
         then char_of (n + 32) else c)"

definition lower :: "string \<Rightarrow> string" where
  "lower s = map lower_char s"

definition upper_char :: "char \<Rightarrow> string" where
  "upper_char c =
     (let n = (of_char c :: nat)
      in if (97 \<le> n \<and> n \<le> 122) \<or> (224 \<le> n \<and> n \<le> 254 \<and> n \<noteq> 247)
         then [char_of (n - 32)]
         else if n = 223 then ''SS'' else [c])"

definition upper :: "string \<Rightarrow> string" where
  "upper s = concat (map upper_char s)"

definition is_space :: "char \<Rightarrow> bool" where
  "is_space c =
     (let n = (of_char c :: nat)
      in (9 \<le> n \<and> n \<le> 13) \<or> (28 \<le> n \<and> n \<le> 32) \<or> n = 133 \<or> n = 160)"

definition strip :: "string \<Rightarrow> string" where
  "strip s = rev (dropWhile is_space (rev (dropWhile is_space s)))"

text \<open>\<^verbatim>\<open>sep.join(parts)\<close>.\<close>

fun join :: "string \<Rightarrow> string list \<Rightarrow> string" where
  "join sep [] = []"
| "join sep [x] = x"
| "join sep (x # y # ys) = x @ sep @ join sep (y # ys)"

text \<open>\<^verbatim>\<open>sub in s\<close>: the text \<open>sub\<close> occurs somewhere in \<open>s\<close>.\<close>

fun contains :: "string \<Rightarrow> string \<Rightarrow> bool" where
  "contains [] sub = (sub = [])"
| "contains (c # cs) sub = (take (length sub) (c # cs) = sub \<or> contains cs sub)"

text \<open>
  \<^verbatim>\<open>s.rfind(sub)\<close>: the highest index at which \<open>sub\<close> starts in \<open>s\<close>, or \<open>-1\<close>.
  \<open>rfind_upto s sub i\<close> tries the start indices \<open>i, i - 1, ..., 0\<close> in that order.
\<close>

fun rfind_upto :: "string \<Rightarrow> string \<Rightarrow> nat \<Rightarrow> int" where
  "rfind_upto s sub 0 = (if take (length sub) s = sub then 0 else - 1)"
| "rfind_upto s sub (Suc i) =
     (if take (length sub) (drop (Suc i) s) = sub then int (Suc i) else rfind_upto s sub i)"

definition rfind :: "string \<Rightarrow> string \<Rightarrow> int" where
  "rfind s sub =
     (if length s < length sub then - 1 else rfind_upto s sub (length s - length sub))"

text \<open>\<^verbatim>\<open>s[-n:]\<close> for a positive \<open>n\<close>: the last \<open>n\<close> characters, or all of \<open>s\<close> when it is shorter.\<close>

definition last_chars :: "nat \<Rightarrow> string \<Rightarrow> string" where
  "last_chars n s = drop (length s - n) s"

definition paragraph_break :: string where
  "paragraph_break = [CHR 0x0A, CHR 0x0A]"

definition hashtag_separator :: string where
  "hashtag_separator = [CHR 0x0A, CHR 0x0A] @ ''---'' @ [CHR 0x0A]"

subsection \<open>The floating-point product \<^verbatim>\<open>len(truncated) * 0.7\<close>\<close>

text \<open>
  Python evaluates \<^verbatim>\<open>len(truncated) * 0.7\<close> in IEEE 754 binary64: the integer is
  converted exactly (it is far below \<open>2^53\<close>), the literal \<^verbatim>\<open>0.7\<close> is the double
  \<open>6305039478318694 / 2^53\<close>, and the exact product is rounded to 53 significant bits,
  ties to even. All values are kept as integers scaled by \<open>2^53\<close>: \<open>times_0_7 n\<close> is
  \<open>2^53\<close> times the double that Python computes. Python compares an \<^verbatim>\<open>int\<close> with a
  \<^verbatim>\<open>float\<close> exactly, which is \<open>int_gt_float\<close> on the scaled value.
\<close>

definition double_0_7 :: nat where
  "double_0_7 = 6305039478318694"

fun bit_length :: "nat \<Rightarrow> nat" where
  "bit_length n = (if n = 0 then 0 else Suc (bit_length (n div 2)))"

declare bit_length.simps [simp del]

definition round_to_53_bits :: "nat \<Rightarrow> nat" where
  "round_to_53_bits p =
     (let b = bit_length p
      in if b \<le> 53 then p
         else (let sh = b - 53; q = p div 2 ^ sh; r = p mod 2 ^ sh;
                   q' = (if 2 * r > 2 ^ sh \<or> (2 * r = 2 ^ sh \<and> odd q) then q + 1 else q)
               in q' * 2 ^ sh))"

definition times_0_7 :: "nat \<Rightarrow> nat" where
  "times_0_7 n = round_to_53_bits (n * double_0_7)"

definition int_gt_float :: "int \<Rightarrow> nat \<Rightarrow> bool" where
  "int_gt_float i scaled = (i * 2 ^ 53 > int scaled)"

subsection \<open>The content generator node (nodes/content_generator.py)\<close>

text \<open>
  The generation capability is external. It is a function \<open>llm\<close> from the number of the
  call to what that call does: it answers with a text or raises an exception with a
  message. The prompt sent with the call is not modelled; every answer that the real
  service can give to its prompts is the answer of some such function.
\<close>

datatype llm_event = Reply string | Raise string

type_synonym llm = "nat \<Rightarrow> llm_event"

datatype exn = LLMError string | MaxRetriesExceeded | EOFError

text \<open>
  \<^verbatim>\<open>_invoke_with_retry\<close>: up to three attempts; an exception whose message contains
  \<^verbatim>\<open>429\<close> or \<^verbatim>\<open>RESOURCE_EXHAUSTED\<close> is retried (after a sleep), any other is raised again.
  The second component of the result is the number of the next call.
\<close>

fun invoke_attempts :: "llm \<Rightarrow> nat \<Rightarrow> nat \<Rightarrow> (exn + string) \<times> nat" where
  "invoke_attempts llm 0 pos = (Inl MaxRetriesExceeded, pos)"
| "invoke_attempts llm (Suc n) pos =
     (case llm pos of
        Reply text \<Rightarrow> (Inr text, Suc pos)
      | Raise msg \<Rightarrow>
          if contains msg ''429'' \<or> contains msg ''RESOURCE_EXHAUSTED''
          then invoke_attempts llm n (Suc pos)
          else (Inl (LLMError msg), Suc pos))"

definition invoke_with_retry :: "llm \<Rightarrow> nat \<Rightarrow> (exn + string) \<times> nat" where
  "invoke_with_retry llm pos = invoke_attempts llm 3 pos"

definition truncate_content :: "string \<Rightarrow> string" where
  "truncate_content content =
     (if length content \<le> MAX_POST_LENGTH then content
      else (let truncated = take (MAX_POST_LENGTH - 100) content;
                last_para = rfind truncated paragraph_break
            in if int_gt_float last_para (times_0_7 (length truncated))
               then take (nat last_para) truncated
               else truncated))"

text \<open>
  \<^verbatim>\<open>_generate_hashtags\<close>: one more call of the model (its prompt is built from the first
  500 characters of the content), whose answer is stripped.
\<close>

definition generate_hashtags :: "llm \<Rightarrow> nat \<Rightarrow> string \<Rightarrow> exn + string" where
  "generate_hashtags llm pos content =
     (case invoke_with_retry llm pos of
        (Inl e, _) \<Rightarrow> Inl e
      | (Inr response, _) \<Rightarrow> Inr (strip response))"

text \<open>
  The two steps that \<^verbatim>\<open>generate_post\<close> and \<^verbatim>\<open>regenerate_post\<close> both apply to the answer
  of the model: the length check, then the hashtag check on the last 200 characters.
\<close>

definition within_limits :: "string \<Rightarrow> string" where
  "within_limits content =
     (if length content > MAX_POST_LENGTH then truncate_content content else content)"

definition with_hashtags :: "llm \<Rightarrow> nat \<Rightarrow> string \<Rightarrow> exn + string" where
  "with_hashtags llm pos content =
     (if CHR ''#'' \<notin> set (last_chars 200 content)
      then (case generate_hashtags llm pos content of
              Inl e \<Rightarrow> Inl e
            | Inr hashtags \<Rightarrow> Inr (content @ hashtag_separator @ hashtags))
      else Inr content)"

record draft =
  d_day :: int
  d_topic :: string
  d_category :: string
  d_difficulty :: string
  d_content :: string
  d_char_count :: nat
  d_regenerated :: bool

text \<open>
  The failure dictionaries: \<^verbatim>\<open>"No topic found for day {day}"\<close>,
  \<^verbatim>\<open>"Day {day} has already been posted"\<close> (with \<^verbatim>\<open>duplicate: True\<close>), and the approval
  handler's default \<^verbatim>\<open>"Content generation failed"\<close>.
\<close>

datatype gen_error = NoTopicFound int | AlreadyPosted int | ContentGenerationFailed

datatype generated = Success draft | Failure gen_error

definition make_draft :: "int \<Rightarrow> topic_info \<Rightarrow> string \<Rightarrow> bool \<Rightarrow> draft" where
  "make_draft day topic_info content regenerated =
     \<lparr>d_day = day, d_topic = ti_topic topic_info, d_category = ti_category topic_info,
      d_difficulty = ti_difficulty topic_info, d_content = content,
      d_char_count = length content, d_regenerated = regenerated\<rparr>"

definition generate_post :: "llm \<Rightarrow> int \<Rightarrow> store \<Rightarrow> exn + generated" where
  "generate_post llm day s =
     (case get_topic_for_day day s of
        None \<Rightarrow> Inr (Failure (NoTopicFound day))
      | Some topic_info \<Rightarrow>
          if is_day_posted day s then Inr (Failure (AlreadyPosted day))
          else (case invoke_with_retry llm 0 of
                  (Inl e, _) \<Rightarrow> Inl e
                | (Inr response, pos) \<Rightarrow>
                    (case with_hashtags llm pos (within_limits response) of
                       Inl e \<Rightarrow> Inl e
                     | Inr content \<Rightarrow> Inr (Success (make_draft day topic_info content False)))))"

definition regenerate_post :: "llm \<Rightarrow> int \<Rightarrow> string option \<Rightarrow> store \<Rightarrow> exn + generated" where
  "regenerate_post llm day feedback s =
     (case get_topic_for_day day s of
        None \<Rightarrow> Inr (Failure (NoTopicFound day))
      | Some topic_info \<Rightarrow>
          (case invoke_with_retry llm 0 of
             (Inl e, _) \<Rightarrow> Inl e
           | (Inr response, pos) \<Rightarrow>
               (case with_hashtags llm pos (within_limits response) of
                  Inl e \<Rightarrow> Inl e
                | Inr content \<Rightarrow> Inr (Success (make_draft day topic_info content True)))))"

text \<open>
  For the truncation law: \<open>break_at content p\<close> says that a paragraph break starts at
  index \<open>p\<close> of the content; \<open>break_within_cut content p\<close> says that it moreover lies
  wholly within the cut, that is, within the first \<open>MAX_POST_LENGTH - 100\<close> characters,
  which is where \<^verbatim>\<open>_truncate_content\<close> searches.
\<close>

definition break_at :: "string \<Rightarrow> nat \<Rightarrow> bool" where
  "break_at content p = (take 2 (drop p content) = paragraph_break)"

definition break_within_cut :: "string \<Rightarrow> nat \<Rightarrow> bool" where
  "break_within_cut content p =
     (p + 2 \<le> MAX_POST_LENGTH - 100 \<and> take 2 (drop p content) = paragraph_break)"

subsection \<open>The approval handler node (nodes/approval_handler.py)\<close>

text \<open>
  What the console gives during one approval: the value returned by the first
  \<^verbatim>\<open>Prompt.ask\<close>, the lines that the calls of \<^verbatim>\<open>input()\<close> read (a call on an exhausted
  input raises \<^verbatim>\<open>EOFError\<close>), and the value returned by the second \<^verbatim>\<open>Prompt.ask\<close>.
\<close>

record console_input =
  ci_choice :: string
  ci_lines :: "string list"
  ci_final_choice :: string

definition choice_map :: "string \<rightharpoonup> decision" where
  "choice_map = map_of
     [(''a'', Approve), (''approve'', Approve),
      (''r'', Reject), (''reject'', Reject),
      (''e'', Edit), (''edit'', Edit),
      (''s'', Skip), (''skip'', Skip),
      (''q'', Quit), (''quit'', Quit)]"

text \<open>
  The second half of \<^verbatim>\<open>get_user_decision\<close>, from the value \<open>answer\<close> that \<^verbatim>\<open>Prompt.ask\<close>
  returned: \<^verbatim>\<open>choice_map.get(answer.lower(), "approve")\<close>.
\<close>

definition get_user_decision :: "string \<Rightarrow> decision" where
  "get_user_decision answer =
     (let choice = lower answer
      in case choice_map choice of None \<Rightarrow> Approve | Some d \<Rightarrow> d)"

text \<open>
  The first half of \<^verbatim>\<open>get_user_decision\<close> is the call
  \<^verbatim>\<open>Prompt.ask("Your choice", choices=[...], default="a")\<close> of the rich library. Its
  prompt loop reads an answer; an empty answer returns the default; otherwise the answer
  is stripped and returned when it is one of the choices (compared as it is, upper case
  is not folded), and any other answer is refused and the prompt asks again. Reading
  from an exhausted input raises \<^verbatim>\<open>EOFError\<close>. \<open>prompt_ask\<close> runs this loop on the
  answers typed.
\<close>

fun prompt_ask :: "string list \<Rightarrow> string \<Rightarrow> string list \<Rightarrow> exn + string" where
  "prompt_ask choices dflt [] = Inl EOFError"
| "prompt_ask choices dflt (value # rest) =
     (if value = [] then Inr dflt
      else if strip value \<in> set choices then Inr (strip value)
      else prompt_ask choices dflt rest)"

definition decision_choices :: "string list" where
  "decision_choices =
     [''a'', ''r'', ''e'', ''s'', ''q'', ''approve'', ''reject'', ''edit'', ''skip'', ''quit'']"


text \<open>
  The loop of \<^verbatim>\<open>get_edit_content\<close>: \<open>Some lines\<close> when \<^verbatim>\<open>END\<close> closes the text,
  \<open>None\<close> when \<^verbatim>\<open>CANCEL\<close> is read.
\<close>

fun read_edit_lines :: "string list \<Rightarrow> string list \<Rightarrow> exn + string list option" where
  "read_edit_lines lines [] = Inl EOFError"
| "read_edit_lines lines (line # rest) =
     (if upper (strip line) = ''END'' then Inr (Some lines)
      else if upper (strip line) = ''CANCEL'' then Inr None
      else read_edit_lines (lines @ [line]) rest)"

definition get_edit_content :: "string \<Rightarrow> string list \<Rightarrow> exn + string" where
  "get_edit_content original_content input =
     (case read_edit_lines [] input of
        Inl e \<Rightarrow> Inl e
      | Inr None \<Rightarrow> Inr original_content
      | Inr (Some lines) \<Rightarrow>
          (let edited_content = join [CHR 0x0A] lines
           in if strip edited_content = [] then Inr original_content else Inr edited_content))"

definition get_rejection_feedback :: "string list \<Rightarrow> exn + string option" where
  "get_rejection_feedback input =
     (case input of
        [] \<Rightarrow> Inl EOFError
      | line # _ \<Rightarrow> (let feedback = strip line in Inr (if feedback \<noteq> [] then Some feedback else None)))"

record approval =
  ar_decision :: decision
  ar_content :: string
  ar_day :: int
  ar_topic :: string
  ar_edited :: bool
  ar_feedback :: "string option"
  ar_auto_approved :: bool

datatype approval_result = Approval approval | ApprovalError gen_error

definition request_approval ::
  "console_input \<Rightarrow> clock \<Rightarrow> draft \<Rightarrow> store \<Rightarrow> exn + approval \<times> store" where
  "request_approval ci clk content_data s =
     (let decision = get_user_decision (ci_choice ci);
          result = \<lparr>ar_decision = decision, ar_content = d_content content_data,
                    ar_day = d_day content_data, ar_topic = d_topic content_data,
                    ar_edited = False, ar_feedback = None, ar_auto_approved = False\<rparr>;
          resolved =
            (if decision = Edit then
               (case get_edit_content (d_content content_data) (ci_lines ci) of
                  Inl e \<Rightarrow> Inl e
                | Inr edited \<Rightarrow>
                    Inr (result\<lparr>ar_content := edited, ar_edited := True,
                                ar_decision := (if lower (ci_final_choice ci) = ''y''
                                                then Approve else Reject)\<rparr>))
             else if decision = Reject then
               (case get_rejection_feedback (ci_lines ci) of
                  Inl e \<Rightarrow> Inl e
                | Inr feedback \<Rightarrow> Inr (result\<lparr>ar_feedback := feedback\<rparr>))
             else Inr result)
      in case resolved of
           Inl e \<Rightarrow> Inl e
         | Inr result' \<Rightarrow>
             if decision = Approve \<or> decision = Edit
             then Inr (result',
                       set_pending_approval
                         \<lparr>pa_content = ar_content result', pa_day = d_day content_data,
                          pa_topic = d_topic content_data, pa_approved_at = clk 0\<rparr> s)
             else Inr (result', s))"

definition auto_approve :: "draft \<Rightarrow> approval" where
  "auto_approve content_data =
     \<lparr>ar_decision = Approve, ar_content = d_content content_data,
      ar_day = d_day content_data, ar_topic = d_topic content_data,
      ar_edited = False, ar_feedback = None, ar_auto_approved = True\<rparr>"

subsection \<open>The workflow state and the graph (agent.py)\<close>

text \<open>
  \<^verbatim>\<open>AgentState\<close> is a dictionary whose keys may be absent. A key that the nodes read with
  \<^verbatim>\<open>state.get(key)\<close> for its truth value only is a \<^typ>\<open>bool\<close> (absent is \<^const>\<open>False\<close>);
  the other keys are options (absent is \<^const>\<open>None\<close>). Each node changes the dictionary in
  place and returns it, so a key keeps its value until a node assigns it again.
\<close>

record agent_state =
  as_current_day :: "int option"
  as_auto_approve :: bool
  as_regenerate_feedback :: "string option"
  as_generated_content :: "generated option"
  as_needs_approval :: bool
  as_approval_result :: "approval_result option"
  as_posting_result :: "posting_result option"
  as_needs_regeneration :: bool
  as_workflow_complete :: bool
  as_quit_requested :: bool

text \<open>What the outside world answers during one pass through the three nodes.\<close>

record pass =
  p_llm :: llm
  p_console :: console_input
  p_api :: api_response
  p_clock :: clock

text \<open>\<^verbatim>\<open>ContentGeneratorNode.__call__\<close>.\<close>

definition content_generator_node :: "llm \<Rightarrow> agent_state \<Rightarrow> store \<Rightarrow> exn + agent_state" where
  "content_generator_node llm st s =
     (let day = (case as_current_day st of None \<Rightarrow> get_current_day s | Some d \<Rightarrow> d);
          feedback = as_regenerate_feedback st;
          result = (if feedback \<noteq> None \<and> feedback \<noteq> Some []
                    then regenerate_post llm day feedback s
                    else generate_post llm day s)
      in case result of
           Inl e \<Rightarrow> Inl e
         | Inr g \<Rightarrow> Inr (st\<lparr>as_generated_content := Some g,
                              as_needs_approval := (case g of Success _ \<Rightarrow> True | Failure _ \<Rightarrow> False)\<rparr>))"

text \<open>\<^verbatim>\<open>ApprovalHandlerNode.__call__\<close>.\<close>

definition approval_handler_node ::
  "console_input \<Rightarrow> clock \<Rightarrow> agent_state \<Rightarrow> store \<Rightarrow> exn + agent_state \<times> store" where
  "approval_handler_node ci clk st s =
     (case as_generated_content st of
        None \<Rightarrow> Inr (st\<lparr>as_approval_result := Some (ApprovalError ContentGenerationFailed)\<rparr>, s)
      | Some (Failure e) \<Rightarrow> Inr (st\<lparr>as_approval_result := Some (ApprovalError e)\<rparr>, s)
      | Some (Success content_data) \<Rightarrow>
          if as_auto_approve st
          then Inr (st\<lparr>as_approval_result := Some (Approval (auto_approve content_data))\<rparr>, s)
          else (case request_approval ci clk content_data s of
                  Inl e \<Rightarrow> Inl e
                | Inr (result, s') \<Rightarrow> Inr (st\<lparr>as_approval_result := Some (Approval result)\<rparr>, s')))"

text \<open>\<^verbatim>\<open>LinkedInPosterNode.__call__\<close>, dispatching on \<^verbatim>\<open>approval_result.get("decision")\<close>.\<close>

definition posting_success :: "posting_result \<Rightarrow> bool" where
  "posting_success r = (case r of Posted _ _ _ _ _ \<Rightarrow> True | Skipped _ _ \<Rightarrow> True | _ \<Rightarrow> False)"

definition unknown_decision :: "decision option \<Rightarrow> agent_state \<Rightarrow> agent_state" where
  "unknown_decision d st =
     st\<lparr>as_posting_result := Some (UnknownDecision d), as_workflow_complete := True\<rparr>"

definition linkedin_poster_node ::
  "api_response \<Rightarrow> bool \<Rightarrow> clock \<Rightarrow> agent_state \<Rightarrow> store \<Rightarrow> agent_state \<times> store" where
  "linkedin_poster_node api is_mock clk st s =
     (case as_approval_result st of
        None \<Rightarrow> (unknown_decision None st, s)
      | Some (ApprovalError e) \<Rightarrow> (unknown_decision (Some ErrorDecision) st, s)
      | Some (Approval a) \<Rightarrow>
          (case ar_decision a of
             Approve \<Rightarrow>
               (let (result, s') = post_content api is_mock clk (ar_content a) (ar_day a) (ar_topic a) s
                in (st\<lparr>as_posting_result := Some result,
                        as_workflow_complete := posting_success result\<rparr>, s'))
           | Skip \<Rightarrow>
               (let (result, s') = handle_skip (ar_day a) (ar_topic a) s
                in (st\<lparr>as_posting_result := Some result, as_workflow_complete := True\<rparr>, s'))
           | Reject \<Rightarrow>
               (st\<lparr>as_needs_regeneration := True, as_regenerate_feedback := ar_feedback a,
                    as_workflow_complete := False\<rparr>, s)
           | Quit \<Rightarrow>
               (st\<lparr>as_posting_result := Some QuitAction, as_workflow_complete := True,
                    as_quit_requested := True\<rparr>, s)
           | Edit \<Rightarrow> (unknown_decision (Some Edit) st, s)
           | ErrorDecision \<Rightarrow> (unknown_decision (Some ErrorDecision) st, s)))"

text \<open>The routing functions of the conditional edges.\<close>

datatype route = NeedsApproval | ErrorRoute | Regenerate | Complete

definition route_after_generation :: "agent_state \<Rightarrow> route" where
  "route_after_generation st =
     (case as_generated_content st of Some (Success _) \<Rightarrow> NeedsApproval | _ \<Rightarrow> ErrorRoute)"

definition route_after_posting :: "agent_state \<Rightarrow> route" where
  "route_after_posting st = (if as_needs_regeneration st then Regenerate else Complete)"

text \<open>
  The compiled graph: entry \<open>generate_content\<close>; from there \<open>needs_approval\<close> leads to
  \<open>get_approval\<close> and \<open>error\<close> to the end; \<open>get_approval\<close> leads to \<open>post_to_linkedin\<close>;
  from there \<open>regenerate\<close> leads back to \<open>generate_content\<close> and \<open>complete\<close> to the end.
  \<open>invoke\<close> runs it on the answers of the outside world, one \<^typ>\<open>pass\<close> for each visit of
  \<open>generate_content\<close>. The result is \<^const>\<open>None\<close> when the graph is back at
  \<open>generate_content\<close> after the last given pass, that is, when the run has not ended.
\<close>

datatype run_result = Finished agent_state store | Raised exn store

fun invoke :: "bool \<Rightarrow> pass list \<Rightarrow> agent_state \<Rightarrow> store \<Rightarrow> run_result option" where
  "invoke is_mock [] st s = None"
| "invoke is_mock (p # ps) st s =
     (case content_generator_node (p_llm p) st s of
        Inl e \<Rightarrow> Some (Raised e s)
      | Inr st1 \<Rightarrow>
          if route_after_generation st1 = NeedsApproval then
            (case approval_handler_node (p_console p) (p_clock p) st1 s of
               Inl e \<Rightarrow> Some (Raised e s)
             | Inr (st2, s2) \<Rightarrow>
                 (let (st3, s3) = linkedin_poster_node (p_api p) is_mock (\<lambda>k. p_clock p (k + 1)) st2 s2
                  in if route_after_posting st3 = Regenerate
                     then invoke is_mock ps st3 s3
                     else Some (Finished st3 s3)))
          else Some (Finished st1 s))"

text \<open>\<^verbatim>\<open>LinkedInPostingAgent.run\<close>: the initial state holds three keys.\<close>

definition initial_agent_state :: "int \<Rightarrow> bool \<Rightarrow> agent_state" where
  "initial_agent_state day auto =
     \<lparr>as_current_day = Some day, as_auto_approve = auto, as_regenerate_feedback = None,
      as_generated_content = None, as_needs_approval = False, as_approval_result = None,
      as_posting_result = None, as_needs_regeneration = False, as_workflow_complete = False,
      as_quit_requested = False\<rparr>"

definition run :: "bool \<Rightarrow> pass list \<Rightarrow> int option \<Rightarrow> bool \<Rightarrow> store \<Rightarrow> run_result option" where
  "run is_mock passes day auto s =
     (let day' = (case day of None \<Rightarrow> get_current_day s | Some d \<Rightarrow> d)
      in invoke is_mock passes (initial_agent_state day' auto) s)"

subsection \<open>Concrete stores and answers used in the examples\<close>

definition store_at_day :: "int \<Rightarrow> store" where
  "store_at_day c = update_state (\<lambda>st. st\<lparr>current_day := c, status := ''active''\<rparr>) (fresh_store [])"


definition store_with_pending :: store where
  "store_with_pending =
     set_pending_approval
       \<lparr>pa_content = ''Draft #AI'', pa_day = 1, pa_topic = ''What is AI?'',
        pa_approved_at = ''2024-01-01T10:00:00''\<rparr> (fresh_store [])"


definition edit_then_no :: console_input where
  "edit_then_no =
     \<lparr>ci_choice = ''e'', ci_lines = [''My own text'', ''#AI #Learning'', ''end''],
      ci_final_choice = ''n''\<rparr>"

definition sample_draft :: draft where
  "sample_draft =
     \<lparr>d_day = 1, d_topic = ''What is AI?'', d_category = ''Basics'',
      d_difficulty = ''Beginner'', d_content = ''Generated story #AI'',
      d_char_count = 19, d_regenerated = False\<rparr>"

definition edited_text :: string where
  "edited_text = ''My own text'' @ [CHR 0x0A] @ ''#AI #Learning''"

definition text_with_break :: string where
  "text_with_break = replicate 2030 CHR ''a'' @ paragraph_break @ replicate 1000 CHR ''b''"

definition text_break_on_cut :: string where
  "text_break_on_cut = replicate 2899 CHR ''a'' @ paragraph_break @ replicate 200 CHR ''b''"

definition text_without_break :: string where
  "text_without_break = replicate 3001 CHR ''a''"

definition day_one :: topic_info where
  "day_one =
     \<lparr>ti_day = 1, ti_topic = ''What is AI?'', ti_category = ''Basics'',
      ti_difficulty = ''Beginner'', ti_key_points = [''Definition'', ''History''],
      ti_story_angle = ''A curious child''\<rparr>"

definition early_tag_story :: llm where
  "early_tag_story k =
     (if k = 0 then Reply (''#intro '' @ replicate 300 CHR ''a'') else Reply ''#AI'')"

definition long_story_then_tags :: llm where
  "long_story_then_tags k = (if k = 0 then Reply (replicate 3000 CHR ''a'') else Reply ''#AI'')"

definition tagged_story :: llm where
  "tagged_story k = Reply ''A new story #AI''"

definition store_day_one_posted :: store where
  "store_day_one_posted =
     record_published 1 ''What is AI?'' ''A story #AI'' (Some ''mock_post_1'')
       (\<lambda>k. ''2024-01-01T10:00:00'') (fresh_store [day_one])"

definition ok_response :: api_response where
  "ok_response =
     \<lparr>api_success = True, api_post_id = Some ''urn:li:share:1'', api_error = None,
      api_detail = None\<rparr>"

definition reject_pass :: pass where
  "reject_pass =
     \<lparr>p_llm = tagged_story,
      p_console = \<lparr>ci_choice = ''r'', ci_lines = [''more examples''], ci_final_choice = ''y''\<rparr>,
      p_api = ok_response, p_clock = (\<lambda>k. ''2024-01-01T10:00:00'')\<rparr>"

definition approve_pass :: pass where
  "approve_pass =
     \<lparr>p_llm = tagged_story,
      p_console = \<lparr>ci_choice = ''a'', ci_lines = [], ci_final_choice = ''y''\<rparr>,
      p_api = ok_response, p_clock = (\<lambda>k. ''2024-01-01T10:05:00'')\<rparr>"

definition failing_pass :: pass where
  "failing_pass =
     \<lparr>p_llm = (\<lambda>k. Raise ''connection refused''),
      p_console = \<lparr>ci_choice = ''a'', ci_lines = [], ci_final_choice = ''y''\<rparr>,
      p_api = ok_response, p_clock = (\<lambda>k. ''2024-01-01T10:10:00'')\<rparr>"

definition posted_days_at_raise :: "run_result option \<Rightarrow> int list option" where
  "posted_days_at_raise r =
     (case r of Some (Raised e s) \<Rightarrow> Some (get_posted_days s) | _ \<Rightarrow> None)"

section \<open>Properties of the progress store\<close>

lemma state_update_state [simp]: "state (update_state f s) = f (state s)"
  by (simp add: update_state_def)

lemma history_update_state [simp]: "history (update_state f s) = history s"
  by (simp add: update_state_def)

lemma history_increment_day [simp]: "history (increment_day s) = history s"
  by (simp add: increment_day_def Let_def)

lemma current_day_increment_day:
  "get_current_day (increment_day s)
     = (if get_current_day s < 90 then get_current_day s + 1 else get_current_day s)"
  by (simp add: increment_day_def get_current_day_def Let_def)

lemma current_day_mark_post_completed:
  "get_current_day (mark_post_completed d clk s)
     = (if get_current_day s < 90 then get_current_day s + 1 else get_current_day s)"
  by (simp add: mark_post_completed_def current_day_increment_day)
     (simp add: get_current_day_def)

lemma state_add_to_history [simp]: "state (add_to_history d t c p clk s) = state s"
  by (simp add: add_to_history_def Let_def)

lemma posted_days_add_to_history:
  "get_posted_days (add_to_history d t c p clk s) = get_posted_days s @ [d]"
  by (simp add: add_to_history_def get_posted_days_def Let_def)

lemma history_record_published:
  "history (record_published d t c p clk s) = history (add_to_history d t c p clk s)"
  by (simp add: record_published_def mark_post_completed_def)

text \<open>
  C2, as amended. After \<open>recordPublished(d, ...)\<close> the day \<open>d\<close> is in the history, and the
  stored current day \<open>c\<close> has advanced by one when \<open>c < 90\<close> and is unchanged otherwise:
  the advance starts from the stored day, whatever \<open>d\<close> is, and stops at 90. So when
  \<open>d\<close> is the stored current day and \<open>d < 90\<close>, the current day becomes \<open>d + 1\<close>.
\<close>

theorem record_published_round_trip:
  "is_day_posted d (record_published d topic content external_id clk s)
   \<and> get_current_day (record_published d topic content external_id clk s)
       = (if get_current_day s < 90 then get_current_day s + 1 else get_current_day s)"
proof
  have "get_posted_days (record_published d topic content external_id clk s)
          = get_posted_days s @ [d]"
    by (simp add: get_posted_days_def history_record_published)
       (simp add: add_to_history_def Let_def)
  then show "is_day_posted d (record_published d topic content external_id clk s)"
    by (simp add: is_day_posted_def)
next
  show "get_current_day (record_published d topic content external_id clk s)
       = (if get_current_day s < 90 then get_current_day s + 1 else get_current_day s)"
    by (simp add: record_published_def current_day_mark_post_completed)
       (simp add: get_current_day_def)
qed

theorem record_published_round_trip_witness:
  "is_day_posted 1 (record_published 1 ''What is AI?'' ''Hello #AI'' (Some ''mock_post_1'')
       (\<lambda>k. ''2024-01-01'') (fresh_store []))
   \<and> get_current_day (record_published 1 ''What is AI?'' ''Hello #AI'' (Some ''mock_post_1'')
       (\<lambda>k. ''2024-01-01'') (fresh_store [])) = 2"
  using record_published_round_trip [of 1 "''What is AI?''" "''Hello #AI''"
      "Some ''mock_post_1''" "\<lambda>k. ''2024-01-01''" "fresh_store []"]
  by (simp add: get_current_day_def fresh_store_def initial_state_def)

text \<open>
  C2 as stated fails on day 90: with the stored current day at 90, recording day 90
  leaves the current day at 90, not at \<open>min (90 + 1) 91 = 91\<close>.
\<close>

theorem record_published_day_90_counterexample:
  "get_current_day (record_published 90 ''Topic'' ''Text #AI'' (Some ''id'')
       (\<lambda>k. ''2024-03-30'') (store_at_day 90)) = 90
   \<and> get_current_day (record_published 90 ''Topic'' ''Text #AI'' (Some ''id'')
       (\<lambda>k. ''2024-03-30'') (store_at_day 90)) \<noteq> min (90 + 1) 91"
  by (simp add: record_published_def current_day_mark_post_completed)
     (simp add: get_current_day_def store_at_day_def)

text \<open>
  The advance does not look at the recorded day either: recording day 5 while the
  stored current day is 1 gives current day 2.
\<close>

lemma record_published_other_day:
  "get_current_day (record_published 5 ''Topic'' ''Text #AI'' (Some ''id'')
       (\<lambda>k. ''2024-01-01'') (store_at_day 1)) = 2"
  by (simp add: record_published_def current_day_mark_post_completed)
     (simp add: get_current_day_def store_at_day_def)

text \<open>
  C4, as amended. The invariant (a draft is pending exactly when the status is
  \<open>pending_approval\<close>) holds in the initial state; \<^verbatim>\<open>set_pending_approval\<close>,
  \<^verbatim>\<open>clear_pending_approval\<close> and \<^verbatim>\<open>reset_journey\<close> establish it; \<^verbatim>\<open>increment_day\<close> and
  \<^verbatim>\<open>mark_post_completed\<close> preserve it; and the state after \<^verbatim>\<open>start_journey\<close> satisfies it
  exactly when no draft was pending before, since \<^verbatim>\<open>start_journey\<close> sets the status to
  \<open>active\<close> and leaves \<open>pending_approval\<close> as it is.
\<close>

theorem journey_invariant_preserved:
  "journey_invariant (fresh_store cur)
   \<and> journey_invariant (set_pending_approval content s)
   \<and> journey_invariant (clear_pending_approval s)
   \<and> journey_invariant (reset_journey s)
   \<and> (journey_invariant s \<longrightarrow> journey_invariant (increment_day s))
   \<and> (journey_invariant s \<longrightarrow> journey_invariant (mark_post_completed day clk s))
   \<and> journey_invariant (start_journey clk s) = (pending_approval (state s) = None)"
  by (auto simp add: journey_invariant_def fresh_store_def initial_state_def
      set_pending_approval_def clear_pending_approval_def reset_journey_def
      increment_day_def mark_post_completed_def start_journey_def Let_def)

theorem journey_invariant_preserved_witness:
  "journey_invariant (fresh_store [])
   \<and> journey_invariant (increment_day (fresh_store []))
   \<and> journey_invariant (mark_post_completed 1 (\<lambda>k. ''2024-01-01'') (fresh_store []))
   \<and> journey_invariant (start_journey (\<lambda>k. ''2024-01-01'') (fresh_store []))"
  using journey_invariant_preserved [where cur = "[]" and s = "fresh_store []" and day = 1
      and clk = "\<lambda>k. ''2024-01-01''"
      and content = "\<lparr>pa_content = ''Draft'', pa_day = 1, pa_topic = ''T'', pa_approved_at = ''now''\<rparr>"]
  by (simp add: fresh_store_def initial_state_def)

text \<open>
  C4 as stated fails for \<^verbatim>\<open>start_journey\<close>: from a state with a pending draft, which
  satisfies the invariant, it leads to a state with status \<open>active\<close> and the draft still
  pending.
\<close>

theorem start_journey_breaks_invariant_counterexample:
  "journey_invariant store_with_pending
   \<and> \<not> journey_invariant (start_journey (\<lambda>k. ''2024-01-02T09:00:00'') store_with_pending)"
  by (simp add: journey_invariant_def store_with_pending_def set_pending_approval_def
      start_journey_def)

section \<open>Properties of the poster\<close>



section \<open>Properties of the approval handler\<close>

text \<open>
  The prompt returns one of its choices or its default, so the value that the second
  half of \<^verbatim>\<open>get_user_decision\<close> receives is always one of the ten lower-case words.
\<close>

lemma prompt_ask_returns_choice:
  "prompt_ask choices dflt typed = Inr v \<Longrightarrow> v \<in> set choices \<or> v = dflt"
  by (induction typed) (auto split: if_splits)

lemma prompt_ask_decision_choices:
  assumes "prompt_ask decision_choices ''a'' typed = Inr v"
  shows "lower v = v \<and> choice_map v \<noteq> None"
proof -
  have "v \<in> set decision_choices"
    using prompt_ask_returns_choice [OF assms] by (auto simp: decision_choices_def)
  then show ?thesis
    by (auto simp: decision_choices_def lower_def lower_char_def choice_map_def)
qed






text \<open>
  C10. In \<^verbatim>\<open>request_approval\<close> the pending snapshot is written whenever the first choice
  of the user was approve or edit, whatever the returned decision is: the snapshot holds
  the returned content. In particular, when the first choice is edit, the edit session
  gives a text and the answer to the confirmation is not \<open>y\<close>, the call returns the
  decision reject, and the store it leaves has the edited text as its pending snapshot.
\<close>

theorem request_approval_persists_pending:
  "((get_user_decision (ci_choice ci) = Approve \<or> get_user_decision (ci_choice ci) = Edit)
      \<and> request_approval ci clk content_data s = Inr (result, s')
     \<longrightarrow> get_pending_approval s'
           = Some \<lparr>pa_content = ar_content result, pa_day = d_day content_data,
                   pa_topic = d_topic content_data, pa_approved_at = clk 0\<rparr>)
   \<and> (get_user_decision (ci_choice ci) = Edit
      \<and> get_edit_content (d_content content_data) (ci_lines ci) = Inr edited
      \<and> lower (ci_final_choice ci) \<noteq> ''y''
     \<longrightarrow> request_approval ci clk content_data s
           = Inr (\<lparr>ar_decision = Reject, ar_content = edited, ar_day = d_day content_data,
                   ar_topic = d_topic content_data, ar_edited = True, ar_feedback = None,
                   ar_auto_approved = False\<rparr>,
                  set_pending_approval
                    \<lparr>pa_content = edited, pa_day = d_day content_data,
                     pa_topic = d_topic content_data, pa_approved_at = clk 0\<rparr> s)
         \<and> get_pending_approval
              (set_pending_approval
                 \<lparr>pa_content = edited, pa_day = d_day content_data,
                  pa_topic = d_topic content_data, pa_approved_at = clk 0\<rparr> s)
             = Some \<lparr>pa_content = edited, pa_day = d_day content_data,
                     pa_topic = d_topic content_data, pa_approved_at = clk 0\<rparr>)"
proof (intro conjI impI)
  assume a: "(get_user_decision (ci_choice ci) = Approve \<or> get_user_decision (ci_choice ci) = Edit)
      \<and> request_approval ci clk content_data s = Inr (result, s')"
  then show "get_pending_approval s'
           = Some \<lparr>pa_content = ar_content result, pa_day = d_day content_data,
                   pa_topic = d_topic content_data, pa_approved_at = clk 0\<rparr>"
    by (auto simp add: request_approval_def Let_def get_pending_approval_def
        set_pending_approval_def split: sum.splits if_splits)
next
  assume b: "get_user_decision (ci_choice ci) = Edit
      \<and> get_edit_content (d_content content_data) (ci_lines ci) = Inr edited
      \<and> lower (ci_final_choice ci) \<noteq> ''y''"
  then show "request_approval ci clk content_data s
           = Inr (\<lparr>ar_decision = Reject, ar_content = edited, ar_day = d_day content_data,
                   ar_topic = d_topic content_data, ar_edited = True, ar_feedback = None,
                   ar_auto_approved = False\<rparr>,
                  set_pending_approval
                    \<lparr>pa_content = edited, pa_day = d_day content_data,
                     pa_topic = d_topic content_data, pa_approved_at = clk 0\<rparr> s)"
    by (simp add: request_approval_def Let_def)
next
  show "get_pending_approval
              (set_pending_approval
                 \<lparr>pa_content = edited, pa_day = d_day content_data,
                  pa_topic = d_topic content_data, pa_approved_at = clk 0\<rparr> s)
             = Some \<lparr>pa_content = edited, pa_day = d_day content_data,
                     pa_topic = d_topic content_data, pa_approved_at = clk 0\<rparr>"
    by (simp add: get_pending_approval_def set_pending_approval_def)
qed

lemma edit_then_no_facts:
  "get_user_decision (ci_choice edit_then_no) = Edit"
  "get_edit_content (d_content sample_draft) (ci_lines edit_then_no) = Inr edited_text"
  "lower (ci_final_choice edit_then_no) \<noteq> ''y''"
  by code_simp+

theorem request_approval_persists_pending_witness:
  "get_user_decision (ci_choice edit_then_no) = Edit
   \<and> get_edit_content (d_content sample_draft) (ci_lines edit_then_no) = Inr edited_text
   \<and> lower (ci_final_choice edit_then_no) \<noteq> ''y''
   \<and> request_approval edit_then_no (\<lambda>k. ''2024-01-01T10:00:00'') sample_draft (fresh_store [])
       = Inr (\<lparr>ar_decision = Reject, ar_content = edited_text, ar_day = 1,
               ar_topic = ''What is AI?'', ar_edited = True, ar_feedback = None,
               ar_auto_approved = False\<rparr>,
              set_pending_approval
                \<lparr>pa_content = edited_text, pa_day = 1, pa_topic = ''What is AI?'',
                 pa_approved_at = ''2024-01-01T10:00:00''\<rparr> (fresh_store []))
   \<and> get_pending_approval
        (set_pending_approval
           \<lparr>pa_content = edited_text, pa_day = 1, pa_topic = ''What is AI?'',
            pa_approved_at = ''2024-01-01T10:00:00''\<rparr> (fresh_store []))
       = Some \<lparr>pa_content = edited_text, pa_day = 1, pa_topic = ''What is AI?'',
               pa_approved_at = ''2024-01-01T10:00:00''\<rparr>"
  using request_approval_persists_pending [where ci = edit_then_no
      and clk = "\<lambda>k. ''2024-01-01T10:00:00''" and content_data = sample_draft
      and s = "fresh_store []" and edited = edited_text
      and result = "\<lparr>ar_decision = Reject, ar_content = edited_text, ar_day = 1,
               ar_topic = ''What is AI?'', ar_edited = True, ar_feedback = None,
               ar_auto_approved = False\<rparr>"
      and s' = "set_pending_approval
                \<lparr>pa_content = edited_text, pa_day = 1, pa_topic = ''What is AI?'',
                 pa_approved_at = ''2024-01-01T10:00:00''\<rparr> (fresh_store [])"]
  by (simp add: edit_then_no_facts) (simp add: sample_draft_def)


section \<open>Properties of the content generator\<close>

text \<open>
  The literal \<^verbatim>\<open>0.7\<close> is the double nearest to seven tenths, and for the 2900 characters
  of the cut the rounded product is \<open>2030 - 2^-42\<close>: an integer index exceeds it exactly
  when it is at least 2030.
\<close>

lemma double_0_7_nearest:
  "2 ^ 52 \<le> double_0_7 \<and> double_0_7 < 2 ^ 53
   \<and> 2 * \<bar>7 * 2 ^ 53 - 10 * int double_0_7\<bar> \<le> 10"
  by (simp add: double_0_7_def)

lemma bit_length_2900_product: "bit_length 18284614487124212600 = 64"
  by (simp add: bit_length.simps)

lemma times_0_7_2900: "times_0_7 2900 = 18284614487124211712"
  by (simp add: times_0_7_def round_to_53_bits_def double_0_7_def bit_length_2900_product
      Let_def)

lemma int_gt_float_2900: "int_gt_float p (times_0_7 2900) = (2030 \<le> p)"
  unfolding times_0_7_2900 int_gt_float_def by simp arith

lemma rfind_upto_cases:
  "(rfind_upto s sub i = - 1 \<and> (\<forall>j\<le>i. take (length sub) (drop j s) \<noteq> sub))
   \<or> (\<exists>q\<le>i. rfind_upto s sub i = int q \<and> take (length sub) (drop q s) = sub
         \<and> (\<forall>j. q < j \<and> j \<le> i \<longrightarrow> take (length sub) (drop j s) \<noteq> sub))"
proof (induction i)
  case 0
  then show ?case by simp
next
  case (Suc i)
  show ?case
  proof (cases "take (length sub) (drop (Suc i) s) = sub")
    case True
    then show ?thesis by auto
  next
    case False
    from Suc show ?thesis
    proof
      assume "rfind_upto s sub i = - 1 \<and> (\<forall>j\<le>i. take (length sub) (drop j s) \<noteq> sub)"
      with False show ?thesis by (auto simp: le_Suc_eq)
    next
      assume "\<exists>q\<le>i. rfind_upto s sub i = int q \<and> take (length sub) (drop q s) = sub
         \<and> (\<forall>j. q < j \<and> j \<le> i \<longrightarrow> take (length sub) (drop j s) \<noteq> sub)"
      then obtain q where q: "q \<le> i" "rfind_upto s sub i = int q"
        "take (length sub) (drop q s) = sub"
        "\<forall>j. q < j \<and> j \<le> i \<longrightarrow> take (length sub) (drop j s) \<noteq> sub"
        by blast
      have "\<forall>j. q < j \<and> j \<le> Suc i \<longrightarrow> take (length sub) (drop j s) \<noteq> sub"
        using q(4) False by (auto simp: le_Suc_eq)
      with q False show ?thesis by auto
    qed
  qed
qed

lemma break_in_cut:
  assumes "p + 2 \<le> n"
  shows "take 2 (drop p (take n content)) = take 2 (drop p content)"
proof -
  have "drop p (take n content) = take (n - p) (drop p content)"
    by (simp add: drop_take)
  moreover have "min 2 (n - p) = 2" using assms by simp
  ultimately show ?thesis by (simp add: min.commute)
qed

lemma rfind_cut_cases:
  assumes "length content > MAX_POST_LENGTH"
  shows "(rfind (take (MAX_POST_LENGTH - 100) content) paragraph_break = - 1
          \<and> (\<forall>p. \<not> break_within_cut content p))
       \<or> (\<exists>q. rfind (take (MAX_POST_LENGTH - 100) content) paragraph_break = int q
              \<and> break_within_cut content q \<and> (\<forall>r. break_within_cut content r \<longrightarrow> r \<le> q))"
proof -
  let ?tr = "take 2900 content"
  have len: "length ?tr = 2900" using assms by (simp add: MAX_POST_LENGTH_def)
  have rf: "rfind ?tr paragraph_break = rfind_upto ?tr paragraph_break 2898"
    using len by (simp add: rfind_def paragraph_break_def)
  have br: "break_within_cut content p = (p \<le> 2898 \<and> take 2 (drop p ?tr) = paragraph_break)" for p
  proof (cases "p \<le> 2898")
    case True
    then have "take 2 (drop p ?tr) = take 2 (drop p content)"
      by (intro break_in_cut) simp
    with True show ?thesis by (simp add: break_within_cut_def MAX_POST_LENGTH_def)
  next
    case False
    then show ?thesis by (simp add: break_within_cut_def MAX_POST_LENGTH_def)
  qed
  have l2: "length paragraph_break = 2" by (simp add: paragraph_break_def)
  from rfind_upto_cases [of ?tr paragraph_break 2898]
  show ?thesis
  proof
    assume "rfind_upto ?tr paragraph_break 2898 = - 1
      \<and> (\<forall>j\<le>2898. take (length paragraph_break) (drop j ?tr) \<noteq> paragraph_break)"
    then have "rfind ?tr paragraph_break = - 1" "\<forall>p. \<not> break_within_cut content p"
      using rf br l2 by auto
    then show ?thesis by (simp add: MAX_POST_LENGTH_def)
  next
    assume "\<exists>q\<le>2898. rfind_upto ?tr paragraph_break 2898 = int q
       \<and> take (length paragraph_break) (drop q ?tr) = paragraph_break
       \<and> (\<forall>j. q < j \<and> j \<le> 2898 \<longrightarrow> take (length paragraph_break) (drop j ?tr) \<noteq> paragraph_break)"
    then obtain q where q: "q \<le> 2898" "rfind_upto ?tr paragraph_break 2898 = int q"
      "take 2 (drop q ?tr) = paragraph_break"
      "\<forall>j. q < j \<and> j \<le> 2898 \<longrightarrow> take 2 (drop j ?tr) \<noteq> paragraph_break"
      using l2 by auto
    have "break_within_cut content q" using q(1,3) br by simp
    moreover have "\<forall>r. break_within_cut content r \<longrightarrow> r \<le> q"
    proof (intro allI impI)
      fix r assume "break_within_cut content r"
      then have "r \<le> 2898" "take 2 (drop r ?tr) = paragraph_break" using br by auto
      with q(4) show "r \<le> q" by (meson not_le_imp_less)
    qed
    ultimately show ?thesis using rf q(2) by (auto simp: MAX_POST_LENGTH_def)
  qed
qed

lemma break_within_cut_iff:
  "break_within_cut content p = (p + 2 \<le> MAX_POST_LENGTH - 100 \<and> break_at content p)"
  by (simp add: break_within_cut_def break_at_def)

lemma truncate_content_long:
  assumes "length content > MAX_POST_LENGTH"
  shows "truncate_content content
           = (if 2030 \<le> rfind (take (MAX_POST_LENGTH - 100) content) paragraph_break
              then take (nat (rfind (take (MAX_POST_LENGTH - 100) content) paragraph_break))
                     (take (MAX_POST_LENGTH - 100) content)
              else take (MAX_POST_LENGTH - 100) content)"
proof -
  let ?tr = "take (MAX_POST_LENGTH - 100) content"
  let ?lp = "rfind ?tr paragraph_break"
  have len: "length ?tr = 2900" using assms by (simp add: MAX_POST_LENGTH_def)
  have gt: "int_gt_float ?lp (times_0_7 (length ?tr)) = (2030 \<le> ?lp)"
    by (simp only: len int_gt_float_2900)
  have "truncate_content content
          = (if int_gt_float ?lp (times_0_7 (length ?tr)) then take (nat ?lp) ?tr else ?tr)"
    using assms by (simp add: truncate_content_def Let_def del: length_take)
  then show ?thesis
    by (simp only: gt)
qed

text \<open>
  C6, as amended. For every input longer than \<open>MAX_POST_LENGTH\<close>, the output of
  \<^verbatim>\<open>_truncate_content\<close> is at most \<open>MAX_POST_LENGTH\<close> long; if a paragraph break lies
  wholly within the cut (the first \<open>MAX_POST_LENGTH - 100\<close> characters) at or after
  70 percent of the cut point, the output ends exactly at the last such break; otherwise
  the output is the hard cut at \<open>MAX_POST_LENGTH - 100\<close> characters.
\<close>

theorem truncation_law:
  assumes "length content > MAX_POST_LENGTH"
  shows "length (truncate_content content) \<le> MAX_POST_LENGTH
       \<and> ((\<exists>p. break_within_cut content p \<and> 7 * (MAX_POST_LENGTH - 100) \<le> 10 * p) \<longrightarrow>
            (\<exists>q. break_within_cut content q \<and> 7 * (MAX_POST_LENGTH - 100) \<le> 10 * q
                 \<and> (\<forall>r. break_within_cut content r \<longrightarrow> r \<le> q)
                 \<and> truncate_content content = take q content))
       \<and> (\<not> (\<exists>p. break_within_cut content p \<and> 7 * (MAX_POST_LENGTH - 100) \<le> 10 * p) \<longrightarrow>
            truncate_content content = take (MAX_POST_LENGTH - 100) content)"
proof -
  let ?tr = "take (MAX_POST_LENGTH - 100) content"
  let ?lp = "rfind ?tr paragraph_break"
  have len: "length ?tr = 2900" using assms by (simp add: MAX_POST_LENGTH_def)
  have gt: "int_gt_float ?lp (times_0_7 (length ?tr)) = (2030 \<le> ?lp)"
    by (simp only: len int_gt_float_2900)
  have "truncate_content content
          = (if int_gt_float ?lp (times_0_7 (length ?tr)) then take (nat ?lp) ?tr else ?tr)"
    using assms by (simp add: truncate_content_def Let_def del: length_take)
  then have tc: "truncate_content content = (if 2030 \<le> ?lp then take (nat ?lp) ?tr else ?tr)"
    by (simp only: gt)
  have seventy: "(7 * (MAX_POST_LENGTH - 100) \<le> 10 * p) = (2030 \<le> p)" for p :: nat
    by (auto simp: MAX_POST_LENGTH_def)
  from rfind_cut_cases [OF assms] show ?thesis
  proof
    assume a: "?lp = - 1 \<and> (\<forall>p. \<not> break_within_cut content p)"
    then have "truncate_content content = ?tr" using tc by simp
    with a show ?thesis by (simp add: MAX_POST_LENGTH_def)
  next
    assume "\<exists>q. ?lp = int q \<and> break_within_cut content q \<and> (\<forall>r. break_within_cut content r \<longrightarrow> r \<le> q)"
    then obtain q where q: "?lp = int q" "break_within_cut content q"
      "\<forall>r. break_within_cut content r \<longrightarrow> r \<le> q" by blast
    have q2900: "q \<le> 2900" using q(2) by (simp add: break_within_cut_def MAX_POST_LENGTH_def)
    show ?thesis
    proof (cases "2030 \<le> q")
      case True
      then have "truncate_content content = take q ?tr" using tc q(1) by simp
      also have "\<dots> = take q content" using q2900 by (simp add: MAX_POST_LENGTH_def min_def)
      finally have eq: "truncate_content content = take q content" .
      have "length (truncate_content content) \<le> MAX_POST_LENGTH"
        using q2900 eq by (simp add: MAX_POST_LENGTH_def)
      moreover have "\<exists>q. break_within_cut content q \<and> 7 * (MAX_POST_LENGTH - 100) \<le> 10 * q
                 \<and> (\<forall>r. break_within_cut content r \<longrightarrow> r \<le> q)
                 \<and> truncate_content content = take q content"
        using q eq True seventy by blast
      moreover have "\<exists>p. break_within_cut content p \<and> 7 * (MAX_POST_LENGTH - 100) \<le> 10 * p"
        using q(2) True seventy by blast
      ultimately show ?thesis by blast
    next
      case False
      then have eq: "truncate_content content = ?tr" using tc q(1) by simp
      have none: "\<not> (\<exists>p. break_within_cut content p \<and> 7 * (MAX_POST_LENGTH - 100) \<le> 10 * p)"
      proof
        assume "\<exists>p. break_within_cut content p \<and> 7 * (MAX_POST_LENGTH - 100) \<le> 10 * p"
        then obtain p where "break_within_cut content p" "2030 \<le> p" using seventy by blast
        then have "2030 \<le> q" using q(3) by (meson le_trans)
        with False show False by simp
      qed
      have "length (truncate_content content) \<le> MAX_POST_LENGTH"
        using eq len by (simp add: MAX_POST_LENGTH_def)
      with none eq show ?thesis by blast
    qed
  qed
qed

lemma text_with_break_facts:
  "length text_with_break > MAX_POST_LENGTH"
  "break_within_cut text_with_break 2030"
  by (simp_all add: text_with_break_def MAX_POST_LENGTH_def break_within_cut_def paragraph_break_def)

lemma text_without_break_facts:
  "length text_without_break > MAX_POST_LENGTH"
  "\<not> (\<exists>p. break_within_cut text_without_break p \<and> 7 * (MAX_POST_LENGTH - 100) \<le> 10 * p)"
proof -
  show "length text_without_break > MAX_POST_LENGTH"
    by (simp add: text_without_break_def MAX_POST_LENGTH_def)
  have "take 2 (drop p (replicate 3001 CHR ''a'')) \<noteq> paragraph_break" for p
  proof
    assume "take 2 (drop p (replicate 3001 CHR ''a'')) = paragraph_break"
    then have "set (take 2 (drop p (replicate 3001 CHR ''a''))) = set paragraph_break" by simp
    moreover have "set (take 2 (drop p (replicate 3001 CHR ''a''))) \<subseteq> {CHR ''a''}"
    proof -
      have "set (take 2 (drop p (replicate 3001 CHR ''a''))) \<subseteq> set (replicate 3001 CHR ''a'')"
        by (meson set_drop_subset set_take_subset subset_trans)
      then show ?thesis by simp
    qed
    ultimately show False by (auto simp: paragraph_break_def)
  qed
  then show "\<not> (\<exists>p. break_within_cut text_without_break p \<and> 7 * (MAX_POST_LENGTH - 100) \<le> 10 * p)"
    by (simp add: break_within_cut_def text_without_break_def)
qed

lemma break_within_cut_text_with_break:
  "break_within_cut text_with_break r = (r = 2030)"
proof
  assume b: "break_within_cut text_with_break r"
  then have r: "r + 2 \<le> 2900" and t: "take 2 (drop r text_with_break) = paragraph_break"
    by (simp_all add: break_within_cut_def MAX_POST_LENGTH_def)
  have len: "length text_with_break = 3032"
    by (simp add: text_with_break_def paragraph_break_def)
  from t have "(take 2 (drop r text_with_break)) ! 0 = CHR 0x0A"
    "(take 2 (drop r text_with_break)) ! 1 = CHR 0x0A"
    by (simp_all add: paragraph_break_def)
  then have n: "text_with_break ! r = CHR 0x0A" "text_with_break ! (r + 1) = CHR 0x0A"
    using r len by simp_all
  show "r = 2030"
  proof (rule ccontr)
    assume ne: "r \<noteq> 2030"
    show False
    proof (cases "r < 2030")
      case True
      then have "text_with_break ! r = CHR ''a''"
        by (simp add: text_with_break_def nth_append)
      with n(1) show False by simp
    next
      case False
      with ne have "2032 \<le> r + 1" by simp
      then have "text_with_break ! (r + 1) = CHR ''b''"
        using r by (simp add: text_with_break_def nth_append paragraph_break_def)
      with n(2) show False by simp
    qed
  qed
next
  assume "r = 2030"
  then show "break_within_cut text_with_break r"
    by (simp add: text_with_break_def MAX_POST_LENGTH_def break_within_cut_def paragraph_break_def)
qed

theorem truncation_law_witness:
  "length text_with_break > MAX_POST_LENGTH
   \<and> break_within_cut text_with_break 2030 \<and> 7 * (MAX_POST_LENGTH - 100) \<le> 10 * (2030::nat)
   \<and> length (truncate_content text_with_break) \<le> MAX_POST_LENGTH
   \<and> truncate_content text_with_break = replicate 2030 CHR ''a''
   \<and> length text_without_break > MAX_POST_LENGTH
   \<and> truncate_content text_without_break = replicate 2900 CHR ''a''"
proof -
  have seventy: "7 * (MAX_POST_LENGTH - 100) \<le> 10 * (2030::nat)"
    by (simp add: MAX_POST_LENGTH_def)
  have ex: "\<exists>p. break_within_cut text_with_break p \<and> 7 * (MAX_POST_LENGTH - 100) \<le> 10 * p"
    using text_with_break_facts(2) seventy by blast
  have "\<exists>q. break_within_cut text_with_break q
          \<and> truncate_content text_with_break = take q text_with_break"
    using truncation_law [OF text_with_break_facts(1)] ex by blast
  then have "truncate_content text_with_break = take 2030 text_with_break"
    by (auto simp: break_within_cut_text_with_break)
  then have a: "truncate_content text_with_break = replicate 2030 CHR ''a''"
    by (simp add: text_with_break_def)
  have b: "length (truncate_content text_with_break) \<le> MAX_POST_LENGTH"
    using truncation_law [OF text_with_break_facts(1)] by blast
  have "truncate_content text_without_break = take (MAX_POST_LENGTH - 100) text_without_break"
    using truncation_law [OF text_without_break_facts(1)] text_without_break_facts(2) by blast
  then have c: "truncate_content text_without_break = replicate 2900 CHR ''a''"
    by (simp add: text_without_break_def MAX_POST_LENGTH_def)
  show ?thesis
    using text_with_break_facts text_without_break_facts(1) seventy a b c by blast
qed

text \<open>
  C6 as stated fails for a break that is not wholly within the cut. In the text below
  the only paragraph break starts at index 2899, well after 70 percent of the cut point,
  and its second newline is the first character beyond the cut: the search finds no
  break, and the output is the hard cut of 2900 characters, which ends with a single
  newline and not at the break.
\<close>

lemma text_break_on_cut_no_break_within_cut:
  "\<not> break_within_cut text_break_on_cut p"
proof
  assume b: "break_within_cut text_break_on_cut p"
  then have p: "p + 2 \<le> 2900" and t: "take 2 (drop p text_break_on_cut) = paragraph_break"
    by (simp_all add: break_within_cut_def MAX_POST_LENGTH_def)
  have len: "length text_break_on_cut = 3101"
    by (simp add: text_break_on_cut_def paragraph_break_def)
  from t have "(take 2 (drop p text_break_on_cut)) ! 0 = CHR 0x0A"
    by (simp add: paragraph_break_def)
  then have "text_break_on_cut ! p = CHR 0x0A"
    using p len by simp
  moreover have "text_break_on_cut ! p = CHR ''a''"
    using p by (simp add: text_break_on_cut_def nth_append)
  ultimately show False by simp
qed

theorem truncation_law_counterexample:
  "length text_break_on_cut > MAX_POST_LENGTH
   \<and> break_at text_break_on_cut 2899
   \<and> 7 * (MAX_POST_LENGTH - 100) \<le> 10 * (2899::nat)
   \<and> truncate_content text_break_on_cut = replicate 2899 CHR ''a'' @ [CHR 0x0A]
   \<and> truncate_content text_break_on_cut \<noteq> take 2899 text_break_on_cut"
proof -
  have long: "length text_break_on_cut > MAX_POST_LENGTH"
    by (simp add: text_break_on_cut_def paragraph_break_def MAX_POST_LENGTH_def)
  have brk: "break_at text_break_on_cut 2899"
    by (simp add: break_at_def text_break_on_cut_def paragraph_break_def)
  have seventy: "7 * (MAX_POST_LENGTH - 100) \<le> 10 * (2899::nat)"
    by (simp add: MAX_POST_LENGTH_def)
  have "rfind (take (MAX_POST_LENGTH - 100) text_break_on_cut) paragraph_break = - 1"
    using rfind_cut_cases [OF long] text_break_on_cut_no_break_within_cut by blast
  then have "truncate_content text_break_on_cut = take (MAX_POST_LENGTH - 100) text_break_on_cut"
    using truncate_content_long [OF long] by simp
  then have eq: "truncate_content text_break_on_cut = replicate 2899 CHR ''a'' @ [CHR 0x0A]"
    by (simp add: text_break_on_cut_def paragraph_break_def MAX_POST_LENGTH_def)
  have l1: "length (truncate_content text_break_on_cut) = 2900" using eq by simp
  have l2: "length (take 2899 text_break_on_cut) = 2899"
    by (simp add: text_break_on_cut_def)
  have ne: "truncate_content text_break_on_cut \<noteq> take 2899 text_break_on_cut"
  proof
    assume "truncate_content text_break_on_cut = take 2899 text_break_on_cut"
    then have "length (truncate_content text_break_on_cut) = length (take 2899 text_break_on_cut)"
      by (rule arg_cong)
    with l1 l2 show False by simp
  qed
  show ?thesis using long brk seventy eq ne by blast
qed


lemma invoke_with_retry_Reply:
  "llm pos = Reply text \<Longrightarrow> invoke_with_retry llm pos = (Inr text, Suc pos)"
  by (simp add: invoke_with_retry_def numeral_3_eq_3)

lemma with_hashtags_present:
  "CHR ''#'' \<in> set (last_chars 200 c) \<Longrightarrow> with_hashtags llm pos c = Inr c"
  by (simp add: with_hashtags_def)

lemma with_hashtags_absent:
  "CHR ''#'' \<notin> set (last_chars 200 c) \<Longrightarrow> invoke_with_retry llm pos = (Inr h, pos')
   \<Longrightarrow> with_hashtags llm pos c = Inr (c @ hashtag_separator @ strip h)"
  by (simp add: with_hashtags_def generate_hashtags_def)

text \<open>
  C7. Let \<open>c\<close> be the answer of the model after the length check. If the last 200
  characters of \<open>c\<close> contain a \<open>#\<close>, \<^verbatim>\<open>generate_post\<close> and \<^verbatim>\<open>regenerate_post\<close> return a
  draft whose content is \<open>c\<close> unchanged. If they contain none and the hashtag call
  answers \<open>h\<close>, the content of the returned draft is \<open>c\<close> followed by the separator and
  the stripped \<open>h\<close>; when \<open>h\<close> brings a \<open>#\<close>, the part of the returned content after
  \<open>c\<close> contains it.
\<close>

theorem hashtag_law:
  assumes "get_topic_for_day day s = Some topic_info"
      and "invoke_with_retry llm 0 = (Inr response, pos)"
      and "c = within_limits response"
  shows "(CHR ''#'' \<in> set (last_chars 200 c) \<longrightarrow>
            (\<exists>d. regenerate_post llm day feedback s = Inr (Success d) \<and> d_content d = c)
          \<and> (\<not> is_day_posted day s \<longrightarrow>
               (\<exists>d. generate_post llm day s = Inr (Success d) \<and> d_content d = c)))
       \<and> (CHR ''#'' \<notin> set (last_chars 200 c) \<longrightarrow>
            (\<forall>h pos'. invoke_with_retry llm pos = (Inr h, pos') \<longrightarrow>
               (\<exists>d. regenerate_post llm day feedback s = Inr (Success d)
                    \<and> d_content d = c @ hashtag_separator @ strip h
                    \<and> (CHR ''#'' \<in> set (strip h) \<longrightarrow>
                          CHR ''#'' \<in> set (drop (length c) (d_content d))))
             \<and> (\<not> is_day_posted day s \<longrightarrow>
                  (\<exists>d. generate_post llm day s = Inr (Success d)
                       \<and> d_content d = c @ hashtag_separator @ strip h
                       \<and> (CHR ''#'' \<in> set (strip h) \<longrightarrow>
                             CHR ''#'' \<in> set (drop (length c) (d_content d)))))))"
  using assms
  by (simp add: generate_post_def regenerate_post_def with_hashtags_present with_hashtags_absent
      make_draft_def)

text \<open>
  Conversely, the content of every successful draft is what the two steps make of the
  answer of the model.
\<close>

lemma generate_post_success_content:
  "generate_post llm day s = Inr (Success d) \<Longrightarrow>
     \<exists>response pos. invoke_with_retry llm 0 = (Inr response, pos)
        \<and> with_hashtags llm pos (within_limits response) = Inr (d_content d)"
  by (auto simp: generate_post_def make_draft_def
      split: option.splits if_splits sum.splits prod.splits)

lemma regenerate_post_success_content:
  "regenerate_post llm day feedback s = Inr (Success d) \<Longrightarrow>
     \<exists>response pos. invoke_with_retry llm 0 = (Inr response, pos)
        \<and> with_hashtags llm pos (within_limits response) = Inr (d_content d)"
  by (auto simp: regenerate_post_def make_draft_def
      split: option.splits if_splits sum.splits prod.splits)

lemma early_tag_story_facts:
  "invoke_with_retry early_tag_story 0 = (Inr (''#intro '' @ replicate 300 CHR ''a''), Suc 0)"
  "invoke_with_retry early_tag_story (Suc 0) = (Inr ''#AI'', Suc (Suc 0))"
  "within_limits (''#intro '' @ replicate 300 CHR ''a'') = ''#intro '' @ replicate 300 CHR ''a''"
  "CHR ''#'' \<notin> set (last_chars 200 (''#intro '' @ replicate 300 CHR ''a''))"
  "strip ''#AI'' = ''#AI''"
proof -
  show "invoke_with_retry early_tag_story 0 = (Inr (''#intro '' @ replicate 300 CHR ''a''), Suc 0)"
    by (rule invoke_with_retry_Reply) (simp add: early_tag_story_def)
  show "invoke_with_retry early_tag_story (Suc 0) = (Inr ''#AI'', Suc (Suc 0))"
    by (rule invoke_with_retry_Reply) (simp add: early_tag_story_def)
  show "within_limits (''#intro '' @ replicate 300 CHR ''a'') = ''#intro '' @ replicate 300 CHR ''a''"
    by (simp add: within_limits_def MAX_POST_LENGTH_def)
  show "CHR ''#'' \<notin> set (last_chars 200 (''#intro '' @ replicate 300 CHR ''a''))"
    by (simp add: last_chars_def)
  show "strip ''#AI'' = ''#AI''"
    by code_simp
qed

lemma tagged_story_facts:
  "invoke_with_retry tagged_story 0 = (Inr ''A new story #AI'', Suc 0)"
  "within_limits ''A new story #AI'' = ''A new story #AI''"
  "CHR ''#'' \<in> set (last_chars 200 ''A new story #AI'')"
proof -
  show "invoke_with_retry tagged_story 0 = (Inr ''A new story #AI'', Suc 0)"
    by (rule invoke_with_retry_Reply) (simp add: tagged_story_def)
  show "within_limits ''A new story #AI'' = ''A new story #AI''"
    by (simp add: within_limits_def MAX_POST_LENGTH_def)
  show "CHR ''#'' \<in> set (last_chars 200 ''A new story #AI'')"
    by (simp add: last_chars_def)
qed

theorem hashtag_law_witness:
  "get_topic_for_day 1 (fresh_store [day_one]) = Some day_one
   \<and> \<not> is_day_posted 1 (fresh_store [day_one])
   \<and> invoke_with_retry early_tag_story 0 = (Inr (''#intro '' @ replicate 300 CHR ''a''), Suc 0)
   \<and> CHR ''#'' \<notin> set (last_chars 200 (within_limits (''#intro '' @ replicate 300 CHR ''a'')))
   \<and> invoke_with_retry early_tag_story (Suc 0) = (Inr ''#AI'', Suc (Suc 0))
   \<and> (\<exists>d. generate_post early_tag_story 1 (fresh_store [day_one]) = Inr (Success d)
          \<and> d_content d = ''#intro '' @ replicate 300 CHR ''a''
                            @ [CHR 0x0A, CHR 0x0A] @ ''---'' @ [CHR 0x0A] @ ''#AI''
          \<and> CHR ''#'' \<in> set (drop 307 (d_content d)))
   \<and> invoke_with_retry tagged_story 0 = (Inr ''A new story #AI'', Suc 0)
   \<and> CHR ''#'' \<in> set (last_chars 200 (within_limits ''A new story #AI''))
   \<and> (\<exists>d. generate_post tagged_story 1 (fresh_store [day_one]) = Inr (Success d)
          \<and> d_content d = ''A new story #AI'')"
proof -
  have topic: "get_topic_for_day 1 (fresh_store [day_one]) = Some day_one"
    and fresh: "\<not> is_day_posted 1 (fresh_store [day_one])"
    by code_simp+
  have c1: "''#intro '' @ replicate 300 CHR ''a'' = within_limits (''#intro '' @ replicate 300 CHR ''a'')"
    by (simp only: early_tag_story_facts(3))
  have "\<forall>h pos'. invoke_with_retry early_tag_story (Suc 0) = (Inr h, pos') \<longrightarrow>
          (\<not> is_day_posted 1 (fresh_store [day_one]) \<longrightarrow>
             (\<exists>d. generate_post early_tag_story 1 (fresh_store [day_one]) = Inr (Success d)
                  \<and> d_content d = (''#intro '' @ replicate 300 CHR ''a'') @ hashtag_separator @ strip h
                  \<and> (CHR ''#'' \<in> set (strip h) \<longrightarrow>
                        CHR ''#'' \<in> set (drop (length (''#intro '' @ replicate 300 CHR ''a''))
                                           (d_content d)))))"
    using hashtag_law [OF topic early_tag_story_facts(1) c1] early_tag_story_facts(4)
    by blast
  then have "\<exists>d. generate_post early_tag_story 1 (fresh_store [day_one]) = Inr (Success d)
                  \<and> d_content d = (''#intro '' @ replicate 300 CHR ''a'') @ hashtag_separator @ strip ''#AI''
                  \<and> (CHR ''#'' \<in> set (strip ''#AI'') \<longrightarrow>
                        CHR ''#'' \<in> set (drop (length (''#intro '' @ replicate 300 CHR ''a''))
                                           (d_content d)))"
    using early_tag_story_facts(2) fresh by blast
  then have a: "\<exists>d. generate_post early_tag_story 1 (fresh_store [day_one]) = Inr (Success d)
          \<and> d_content d = ''#intro '' @ replicate 300 CHR ''a''
                            @ [CHR 0x0A, CHR 0x0A] @ ''---'' @ [CHR 0x0A] @ ''#AI''
          \<and> CHR ''#'' \<in> set (drop 307 (d_content d))"
    by (simp add: early_tag_story_facts(5) hashtag_separator_def)
  have c2: "''A new story #AI'' = within_limits ''A new story #AI''"
    by (simp only: tagged_story_facts(2))
  have b: "\<exists>d. generate_post tagged_story 1 (fresh_store [day_one]) = Inr (Success d)
          \<and> d_content d = ''A new story #AI''"
    using hashtag_law [OF topic tagged_story_facts(1) c2] tagged_story_facts(3) fresh
    by blast
  show ?thesis
    using topic fresh early_tag_story_facts(1,2,4) tagged_story_facts a b
    by (simp only: early_tag_story_facts(3) tagged_story_facts(2) simp_thms)
qed


text \<open>
  C5. The derived count of every successful draft is the length of its content.
\<close>

lemma generate_post_char_count:
  "generate_post llm day s = Inr (Success d) \<Longrightarrow> d_char_count d = length (d_content d)"
  by (auto simp: generate_post_def make_draft_def split: option.splits if_splits sum.splits prod.splits)

text \<open>
  C5, the length bound. The hashtags are appended after the length check, so the
  returned content can be longer than \<open>MAX_POST_LENGTH\<close>: a model answer of exactly 3000
  characters without \<open>#\<close> passes the check untruncated, and with the separator and the
  hashtags \<open>#AI\<close> the returned draft has 3009 characters.
\<close>

theorem generate_post_exceeds_limit:
  "generate_post long_story_then_tags 1 (fresh_store [day_one])
     = Inr (Success (make_draft 1 day_one
              (replicate 3000 CHR ''a'' @ hashtag_separator @ ''#AI'') False))
   \<and> length (replicate 3000 CHR ''a'' @ hashtag_separator @ ''#AI'') = 3009
   \<and> d_char_count (make_draft 1 day_one
              (replicate 3000 CHR ''a'' @ hashtag_separator @ ''#AI'') False) = 3009
   \<and> MAX_POST_LENGTH < 3009"
proof -
  have topic: "get_topic_for_day 1 (fresh_store [day_one]) = Some day_one"
    and fresh: "\<not> is_day_posted 1 (fresh_store [day_one])"
    by code_simp+
  have first: "invoke_with_retry long_story_then_tags 0 = (Inr (replicate 3000 CHR ''a''), Suc 0)"
    by (rule invoke_with_retry_Reply) (simp add: long_story_then_tags_def)
  have second: "invoke_with_retry long_story_then_tags (Suc 0) = (Inr ''#AI'', Suc (Suc 0))"
    by (rule invoke_with_retry_Reply) (simp add: long_story_then_tags_def)
  have limits: "within_limits (replicate 3000 CHR ''a'') = replicate 3000 CHR ''a''"
    by (simp add: within_limits_def MAX_POST_LENGTH_def)
  have absent: "CHR ''#'' \<notin> set (last_chars 200 (replicate 3000 CHR ''a''))"
    by (simp add: last_chars_def)
  have tags: "strip ''#AI'' = ''#AI''"
    by code_simp
  have "generate_post long_story_then_tags 1 (fresh_store [day_one])
     = Inr (Success (make_draft 1 day_one
              (replicate 3000 CHR ''a'' @ hashtag_separator @ ''#AI'') False))"
    by (simp add: generate_post_def topic fresh first limits
        with_hashtags_absent [OF absent second] tags)
  then show ?thesis
    by (simp add: make_draft_def hashtag_separator_def MAX_POST_LENGTH_def)
qed

text \<open>
  C3. \<^verbatim>\<open>regenerate_post\<close> does not look at the history: for a day that is already
  posted, where \<^verbatim>\<open>generate_post\<close> fails with the duplicate error, it returns a new
  successful draft.
\<close>

theorem regenerate_post_ignores_history:
  "is_day_posted 1 store_day_one_posted
   \<and> generate_post tagged_story 1 store_day_one_posted = Inr (Failure (AlreadyPosted 1))
   \<and> regenerate_post tagged_story 1 (Some ''more examples'') store_day_one_posted
       = Inr (Success (make_draft 1 day_one ''A new story #AI'' True))"
proof -
  have topic: "get_topic_for_day 1 store_day_one_posted = Some day_one"
    and posted: "is_day_posted 1 store_day_one_posted"
    by code_simp+
  have first: "invoke_with_retry tagged_story 0 = (Inr ''A new story #AI'', Suc 0)"
    by (rule invoke_with_retry_Reply) (simp add: tagged_story_def)
  have limits: "within_limits ''A new story #AI'' = ''A new story #AI''"
    by (simp add: within_limits_def MAX_POST_LENGTH_def)
  have present: "CHR ''#'' \<in> set (last_chars 200 ''A new story #AI'')"
    by (simp add: last_chars_def)
  show ?thesis
    by (simp add: generate_post_def regenerate_post_def topic posted first limits
        with_hashtags_present [OF present])
qed

section \<open>Properties of the workflow\<close>

text \<open>
  The poster node sets \<open>needs_regeneration\<close> on a reject and no node ever clears it, and
  \<^verbatim>\<open>_route_after_posting\<close> reads nothing else.
\<close>

lemma poster_keeps_needs_regeneration:
  "as_needs_regeneration (fst (linkedin_poster_node api is_mock clk st s))
     = (as_needs_regeneration st
        \<or> (\<exists>a. as_approval_result st = Some (Approval a) \<and> ar_decision a = Reject))"
  by (auto simp: linkedin_poster_node_def unknown_decision_def Let_def
      split: option.splits approval_result.splits decision.splits prod.splits)

lemma route_after_posting_first_visit:
  assumes "\<not> as_needs_regeneration st"
      and "as_approval_result st = Some (Approval a)"
  shows "(route_after_posting (fst (linkedin_poster_node api is_mock clk st s)) = Regenerate)
           = (ar_decision a = Reject)"
  using assms by (simp add: route_after_posting_def poster_keeps_needs_regeneration)

text \<open>
  Hence, once a reject has set the flag, a run never ends at the posting stage: whatever
  the later decisions are, it can only end at the generation stage (a failed generation)
  or by an exception.
\<close>

lemma generator_keeps_needs_regeneration:
  "content_generator_node llm st s = Inr st1 \<Longrightarrow> as_needs_regeneration st1 = as_needs_regeneration st"
  by (auto simp: content_generator_node_def Let_def split: sum.splits)

lemma approval_keeps_needs_regeneration:
  "approval_handler_node ci clk st s = Inr (st2, s2)
   \<Longrightarrow> as_needs_regeneration st2 = as_needs_regeneration st"
  by (auto simp: approval_handler_node_def split: option.splits generated.splits if_splits sum.splits)

lemma invoke_after_reject:
  "as_needs_regeneration st \<Longrightarrow> invoke is_mock ps st s = Some (Finished st' s')
   \<Longrightarrow> route_after_generation st' \<noteq> NeedsApproval"
proof (induction ps arbitrary: st s)
  case Nil
  then show ?case by simp
next
  case (Cons p ps)
  from Cons.prems(2) obtain st1 where g: "content_generator_node (p_llm p) st s = Inr st1"
    by (auto split: sum.splits)
  have f1: "as_needs_regeneration st1"
    using generator_keeps_needs_regeneration [OF g] Cons.prems(1) by simp
  show ?case
  proof (cases "route_after_generation st1 = NeedsApproval")
    case False
    with Cons.prems(2) g show ?thesis by auto
  next
    case True
    with Cons.prems(2) g obtain st2 s2
      where a: "approval_handler_node (p_console p) (p_clock p) st1 s = Inr (st2, s2)"
      by (auto split: sum.splits)
    have f2: "as_needs_regeneration st2"
      using approval_keeps_needs_regeneration [OF a] f1 by simp
    obtain st3 s3
      where po: "linkedin_poster_node (p_api p) is_mock (\<lambda>k. p_clock p (k + 1)) st2 s2 = (st3, s3)"
      by (cases "linkedin_poster_node (p_api p) is_mock (\<lambda>k. p_clock p (k + 1)) st2 s2")
    have "as_needs_regeneration st3"
      using poster_keeps_needs_regeneration [of "p_api p" is_mock "\<lambda>k. p_clock p (k + 1)" st2 s2]
        f2 po by simp
    then have "route_after_posting st3 = Regenerate" by (simp add: route_after_posting_def)
    with Cons.prems(2) g True a po have "invoke is_mock ps st3 s3 = Some (Finished st' s')"
      by simp
    with Cons.IH [OF \<open>as_needs_regeneration st3\<close>] show ?thesis by blast
  qed
qed

text \<open>
  C1. A run in which a reject (with feedback) is followed by an approve: after the approve
  has been handled and the post published, the graph is back at \<open>generate_content\<close>, so
  the run has not ended after the two passes. When the model fails in the third pass,
  day 1 is in the history at that moment; when the user approves once more, day 1 is
  published a second time.
\<close>

theorem approve_after_reject_loops_back:
  "run False [reject_pass, approve_pass] None False (fresh_store [day_one]) = None
   \<and> posted_days_at_raise
        (run False [reject_pass, approve_pass, failing_pass] None False (fresh_store [day_one]))
       = Some [1]
   \<and> posted_days_at_raise
        (run False [reject_pass, approve_pass, approve_pass, failing_pass] None False
           (fresh_store [day_one]))
       = Some [1, 1]"
  by code_simp


end
